theory Spec2Isabelle
  imports Complex_Main "HOL-Library.AList" "HOL-Library.Product_Lexorder"
begin

section \<open>Data model (types.ts and the interfaces of PackingAlgorithm.ts)\<close>

text \<open>
  A TypeScript \<open>number\<close> is modelled as an exact \<open>real\<close>: the rounding of IEEE
  doubles, \<open>NaN\<close> and the infinities are outside the model.  Counts that the engine
  reads or produces as integers (\<open>quantity\<close>, the statistics counters) are \<open>int\<close>, and
  the loop index of the demand expansion is a \<open>nat\<close>.  Field names carry a prefix
  because several interfaces share the names \<open>x\<close>, \<open>y\<close>, \<open>z\<close>, \<open>length\<close>, \<open>width\<close>,
  \<open>height\<close>.
\<close>

record Container =
  c_length :: real
  c_width :: real
  c_height :: real

record BoxType =
  bt_id :: string
  bt_name :: string
  bt_length :: real
  bt_width :: real
  bt_height :: real
  bt_weight :: real
  isFragile :: bool
  bt_color :: string
  quantity :: int

record Position =
  pos_x :: real
  pos_y :: real
  pos_z :: real

text \<open>
  The engine writes only the two angles \<open>0\<close> and \<open>Math.PI / 2\<close> into a rotation, so an
  angle is one of these two values; \<open>radians\<close> gives the number it stands for.
\<close>

datatype Angle = Zero | HalfPi

definition radians :: "Angle \<Rightarrow> real" where
  "radians a = (case a of Zero \<Rightarrow> 0 | HalfPi \<Rightarrow> pi / 2)"

record Rotation =
  rot_x :: Angle
  rot_y :: Angle
  rot_z :: Angle

record Dimensions =
  d_length :: real
  d_width :: real
  d_height :: real

record PackedBox =
  pb_id :: string
  boxType :: BoxType
  position :: Position
  rotation :: Rotation
  dimensions :: Dimensions

record PackingStats =
  totalBoxes :: int
  packedBoxes :: int
  unpackedBoxes :: int
  containerVolume :: real
  usedVolume :: real
  utilizationPercent :: real
  totalWeight :: real

record PackingResult =
  success :: bool
  boxes :: "PackedBox list"
  unpacked :: "BoxType list"
  stats :: PackingStats

record BoxToPlace =
  u_boxType :: BoxType
  u_index :: nat

record Space =
  sp_x :: real
  sp_y :: real
  sp_z :: real
  sp_length :: real
  sp_width :: real
  sp_height :: real

section \<open>Helper functions of the packing engine\<close>

definition boxFitsInSpace :: "real \<Rightarrow> real \<Rightarrow> real \<Rightarrow> Space \<Rightarrow> bool" where
  "boxFitsInSpace boxL boxW boxH space \<longleftrightarrow>
     boxL \<le> sp_length space \<and> boxW \<le> sp_width space \<and> boxH \<le> sp_height space"

definition getRotations :: "BoxType \<Rightarrow> (real \<times> real \<times> real) list" where
  "getRotations box =
     (let l = bt_length box; w = bt_width box; h = bt_height box in
      if isFragile box then [(l, w, h), (w, l, h)]
      else [(l, w, h), (l, h, w), (w, l, h), (w, h, l), (h, l, w), (h, w, l)])"

definition getRotationFromDimensions :: "BoxType \<Rightarrow> real \<times> real \<times> real \<Rightarrow> Rotation" where
  "getRotationFromDimensions original rotated =
     (case rotated of (rl, rw, rh) \<Rightarrow>
        if rl = bt_length original \<and> rw = bt_width original \<and> rh = bt_height original
        then \<lparr>rot_x = Zero, rot_y = Zero, rot_z = Zero\<rparr>
        else if rl = bt_width original \<and> rw = bt_length original \<and> rh = bt_height original
        then \<lparr>rot_x = Zero, rot_y = HalfPi, rot_z = Zero\<rparr>
        else \<lparr>rot_x = Zero, rot_y = Zero, rot_z = Zero\<rparr>)"

text \<open>
  The predicate of the \<open>filter\<close> call inside \<open>checkFragilityConstraint\<close>: box \<open>b\<close> starts
  within 0.1 of \<open>fragileTop\<close> and its x/z footprint overlaps that of \<open>packed\<close>.
\<close>

definition stackedOn :: "PackedBox \<Rightarrow> real \<Rightarrow> PackedBox \<Rightarrow> bool" where
  "stackedOn packed fragileTop b \<longleftrightarrow>
     \<bar>pos_y (position b) - fragileTop\<bar> < 1 / 10 \<and>
     pos_x (position b) < pos_x (position packed) + d_length (dimensions packed) \<and>
     pos_x (position b) + d_length (dimensions b) > pos_x (position packed) \<and>
     pos_z (position b) < pos_z (position packed) + d_width (dimensions packed) \<and>
     pos_z (position b) + d_width (dimensions b) > pos_z (position packed)"

text \<open>
  The \<open>for (const packed of packedBoxes)\<close> loop; the first argument is the whole
  list (used by the stack count), the second the part still to be visited.
\<close>

fun checkFragilityLoop ::
  "PackedBox list \<Rightarrow> PackedBox list \<Rightarrow> Position \<Rightarrow> Dimensions \<Rightarrow> bool" where
  "checkFragilityLoop all [] pos dims = True"
| "checkFragilityLoop all (packed # rest) pos dims =
     (if \<not> isFragile (boxType packed) then checkFragilityLoop all rest pos dims
      else
        let fragileTop = pos_y (position packed) + d_height (dimensions packed) in
        if \<bar>pos_y pos - fragileTop\<bar> < 1 / 10 then
          let overlapX =
                (pos_x pos < pos_x (position packed) + d_length (dimensions packed) \<and>
                 pos_x pos + d_length dims > pos_x (position packed));
              overlapZ =
                (pos_z pos < pos_z (position packed) + d_width (dimensions packed) \<and>
                 pos_z pos + d_width dims > pos_z (position packed))
          in
            if overlapX \<and> overlapZ then
              let stackCount = length (filter (stackedOn packed fragileTop) all) in
              if stackCount \<ge> 2 then False
              else checkFragilityLoop all rest pos dims
            else checkFragilityLoop all rest pos dims
        else checkFragilityLoop all rest pos dims)"

definition checkFragilityConstraint ::
  "PackedBox list \<Rightarrow> BoxType \<Rightarrow> Position \<Rightarrow> Dimensions \<Rightarrow> bool" where
  "checkFragilityConstraint packed newBox pos dims =
     checkFragilityLoop packed packed pos dims"

definition splitSpace :: "Space \<Rightarrow> real \<Rightarrow> real \<Rightarrow> real \<Rightarrow> Space list" where
  "splitSpace space boxL boxW boxH =
     (let newSpaces0 = [];
          newSpaces1 =
            (if sp_length space - boxL > 0
             then newSpaces0 @
               [\<lparr>sp_x = sp_x space + boxL, sp_y = sp_y space, sp_z = sp_z space,
                 sp_length = sp_length space - boxL, sp_width = sp_width space,
                 sp_height = sp_height space\<rparr>]
             else newSpaces0);
          newSpaces2 =
            (if sp_width space - boxW > 0
             then newSpaces1 @
               [\<lparr>sp_x = sp_x space, sp_y = sp_y space, sp_z = sp_z space + boxW,
                 sp_length = boxL, sp_width = sp_width space - boxW,
                 sp_height = sp_height space\<rparr>]
             else newSpaces1);
          newSpaces3 =
            (if sp_height space - boxH > 0
             then newSpaces2 @
               [\<lparr>sp_x = sp_x space, sp_y = sp_y space + boxH, sp_z = sp_z space,
                 sp_length = boxL, sp_width = boxW,
                 sp_height = sp_height space - boxH\<rparr>]
             else newSpaces2)
      in newSpaces3)"

section \<open>Array.prototype.sort and the template literal\<close>

text \<open>
  \<open>Array.prototype.sort\<close> with a comparator is a stable sort: an element goes before
  another exactly when the comparator is negative, and elements that compare equal keep
  their order.  It is modelled as insertion sort from the right.
\<close>

fun insertSorted :: "('a \<Rightarrow> 'a \<Rightarrow> real) \<Rightarrow> 'a \<Rightarrow> 'a list \<Rightarrow> 'a list" where
  "insertSorted cmp a [] = [a]"
| "insertSorted cmp a (b # bs) =
     (if cmp a b \<le> 0 then a # b # bs else b # insertSorted cmp a bs)"

definition arraySort :: "('a \<Rightarrow> 'a \<Rightarrow> real) \<Rightarrow> 'a list \<Rightarrow> 'a list" where
  "arraySort cmp xs = foldr (insertSorted cmp) xs []"

fun digitsOfNat :: "nat \<Rightarrow> string" where
  "digitsOfNat n =
     (if n < 10 then [char_of (48 + n)]
      else digitsOfNat (n div 10) @ [char_of (48 + n mod 10)])"

declare digitsOfNat.simps [simp del]

section \<open>The main packing algorithm\<close>

definition boxTypeVolume :: "BoxType \<Rightarrow> real" where
  "boxTypeVolume b = bt_length b * bt_width b * bt_height b"

fun expandBoxTypes :: "BoxType list \<Rightarrow> BoxToPlace list" where
  "expandBoxTypes [] = []"
| "expandBoxTypes (b # bs) =
     map (\<lambda>i. \<lparr>u_boxType = b, u_index = i\<rparr>) [0 ..< nat (quantity b)] @ expandBoxTypes bs"

definition volumeDescending :: "BoxToPlace \<Rightarrow> BoxToPlace \<Rightarrow> real" where
  "volumeDescending a b =
     (let volA = boxTypeVolume (u_boxType a); volB = boxTypeVolume (u_boxType b)
      in volB - volA)"

definition bottomLeftBack :: "Space \<Rightarrow> Space \<Rightarrow> real" where
  "bottomLeftBack a b =
     (if sp_y a \<noteq> sp_y b then sp_y a - sp_y b
      else if sp_x a \<noteq> sp_x b then sp_x a - sp_x b
      else sp_z a - sp_z b)"

text \<open>The \<open>for (const [rotL, rotW, rotH] of rotations)\<close> loop: the first orientation
  that fits the space and passes the fragility check.\<close>

fun tryRotations ::
  "PackedBox list \<Rightarrow> BoxType \<Rightarrow> Space \<Rightarrow> (real \<times> real \<times> real) list
     \<Rightarrow> (real \<times> real \<times> real) option" where
  "tryRotations packed b space [] = None"
| "tryRotations packed b space ((rotL, rotW, rotH) # rest) =
     (if \<not> boxFitsInSpace rotL rotW rotH space then tryRotations packed b space rest
      else if \<not> checkFragilityConstraint packed b
                  \<lparr>pos_x = sp_x space, pos_y = sp_y space, pos_z = sp_z space\<rparr>
                  \<lparr>d_length = rotL, d_width = rotW, d_height = rotH\<rparr>
      then tryRotations packed b space rest
      else Some (rotL, rotW, rotH))"

definition makePackedBox :: "BoxType \<Rightarrow> nat \<Rightarrow> Space \<Rightarrow> real \<times> real \<times> real \<Rightarrow> PackedBox" where
  "makePackedBox b idx space rot =
     (case rot of (rotL, rotW, rotH) \<Rightarrow>
        \<lparr>pb_id = bt_id b @ ''_'' @ digitsOfNat idx,
         boxType = b,
         position = \<lparr>pos_x = sp_x space, pos_y = sp_y space, pos_z = sp_z space\<rparr>,
         rotation = getRotationFromDimensions b (rotL, rotW, rotH),
         dimensions = \<lparr>d_length = rotL, d_width = rotW, d_height = rotH\<rparr>\<rparr>)"

text \<open>The free-space list after a placement into \<open>spaces ! spaceIdx\<close>: splice, sort,
  filter.\<close>

definition updateSpaces :: "Space list \<Rightarrow> nat \<Rightarrow> real \<times> real \<times> real \<Rightarrow> Space list" where
  "updateSpaces spaces spaceIdx rot =
     (case rot of (rotL, rotW, rotH) \<Rightarrow>
        let newSpaces = splitSpace (spaces ! spaceIdx) rotL rotW rotH;
            spliced = take spaceIdx spaces @ newSpaces @ drop (Suc spaceIdx) spaces;
            sorted = arraySort bottomLeftBack spliced
        in filter (\<lambda>s. sp_length s > 1 \<and> sp_width s > 1 \<and> sp_height s > 1) sorted)"

text \<open>The \<open>for (let spaceIdx = 0; spaceIdx < spaces.length && !placed; spaceIdx++)\<close>
  loop; \<open>None\<close> is \<open>placed = false\<close> at its end.\<close>

function placeInSpaces ::
  "PackedBox list \<Rightarrow> BoxToPlace \<Rightarrow> Space list \<Rightarrow> nat \<Rightarrow> (PackedBox \<times> Space list) option" where
  "placeInSpaces packed u spaces spaceIdx =
     (if spaceIdx < length spaces then
        (case tryRotations packed (u_boxType u) (spaces ! spaceIdx)
                (getRotations (u_boxType u)) of
           None \<Rightarrow> placeInSpaces packed u spaces (Suc spaceIdx)
         | Some rot \<Rightarrow>
             Some (makePackedBox (u_boxType u) (u_index u) (spaces ! spaceIdx) rot,
                   updateSpaces spaces spaceIdx rot))
      else None)"
  by pat_completeness auto
termination
  by (relation "measure (\<lambda>(packed, u, spaces, spaceIdx). length spaces - spaceIdx)") auto

declare placeInSpaces.simps [simp del]

record PackState =
  st_spaces :: "Space list"
  st_packedBoxes :: "PackedBox list"
  st_unpackedCounts :: "(string \<times> int) list"

text \<open>The \<open>Map\<close> of unpacked counts is an association list in insertion order:
  \<open>set\<close> on a present key keeps its place, on an absent key appends.\<close>

definition placeUnit :: "PackState \<Rightarrow> BoxToPlace \<Rightarrow> PackState" where
  "placeUnit st u =
     (case placeInSpaces (st_packedBoxes st) u (st_spaces st) 0 of
        Some (packedBox, spaces') \<Rightarrow>
          st\<lparr>st_spaces := spaces', st_packedBoxes := st_packedBoxes st @ [packedBox]\<rparr>
      | None \<Rightarrow>
          let count = (case map_of (st_unpackedCounts st) (bt_id (u_boxType u)) of
                         None \<Rightarrow> 0 | Some c \<Rightarrow> c)
          in st\<lparr>st_unpackedCounts :=
                  AList.update (bt_id (u_boxType u)) (count + 1) (st_unpackedCounts st)\<rparr>)"

definition initialState :: "Container \<Rightarrow> PackState" where
  "initialState container =
     \<lparr>st_spaces = [\<lparr>sp_x = 0, sp_y = 0, sp_z = 0, sp_length = c_length container,
                    sp_width = c_width container, sp_height = c_height container\<rparr>],
      st_packedBoxes = [],
      st_unpackedCounts = []\<rparr>"

definition sortedUnits :: "BoxType list \<Rightarrow> BoxToPlace list" where
  "sortedUnits boxTypes = arraySort volumeDescending (expandBoxTypes boxTypes)"

definition packLoop :: "Container \<Rightarrow> BoxToPlace list \<Rightarrow> PackState" where
  "packLoop container units = foldl placeUnit (initialState container) units"

fun buildUnpacked :: "BoxType list \<Rightarrow> (string \<times> int) list \<Rightarrow> BoxType list" where
  "buildUnpacked boxTypes [] = []"
| "buildUnpacked boxTypes ((ident, count) # rest) =
     (case find (\<lambda>b. bt_id b = ident) boxTypes of
        Some b \<Rightarrow> b\<lparr>quantity := count\<rparr> # buildUnpacked boxTypes rest
      | None \<Rightarrow> buildUnpacked boxTypes rest)"

definition mathRound :: "real \<Rightarrow> real" where
  "mathRound v = of_int \<lfloor>v + 1 / 2\<rfloor>"

definition packBoxes :: "Container \<Rightarrow> BoxType list \<Rightarrow> PackingResult" where
  "packBoxes container boxTypes =
     (let boxesToPlace = sortedUnits boxTypes;
          final = packLoop container boxesToPlace;
          placed = st_packedBoxes final;
          unpackedList = buildUnpacked boxTypes (st_unpackedCounts final);
          cVolume = c_length container * c_width container * c_height container;
          used = foldl (\<lambda>sum box. sum + d_length (dimensions box) * d_width (dimensions box)
                                        * d_height (dimensions box)) 0 placed;
          weight = foldl (\<lambda>sum box. sum + bt_weight (boxType box)) 0 placed;
          total = int (length boxesToPlace)
      in \<lparr>success = (length placed > 0),
          boxes = placed,
          unpacked = unpackedList,
          stats = \<lparr>totalBoxes = total,
                   packedBoxes = int (length placed),
                   unpackedBoxes = total - int (length placed),
                   containerVolume = cVolume,
                   usedVolume = used,
                   utilizationPercent = mathRound ((used / cVolume) * 100 * 10) / 10,
                   totalWeight = weight\<rparr>\<rparr>)"

section \<open>Valid inputs, regions and invariants\<close>

definition validContainer :: "Container \<Rightarrow> bool" where
  "validContainer c \<longleftrightarrow> 0 < c_length c \<and> 0 < c_width c \<and> 0 < c_height c"

definition validBoxType :: "BoxType \<Rightarrow> bool" where
  "validBoxType b \<longleftrightarrow>
     0 < bt_length b \<and> 0 < bt_width b \<and> 0 < bt_height b \<and> 0 \<le> quantity b"

definition validInput :: "Container \<Rightarrow> BoxType list \<Rightarrow> bool" where
  "validInput c bs \<longleftrightarrow> validContainer c \<and> list_all validBoxType bs"

type_synonym point = "real \<times> real \<times> real"

text \<open>
  The half-open cuboid with minimum corner \<open>(x, y, z)\<close>, extent \<open>l\<close> along x, \<open>h\<close> along
  the vertical axis y and \<open>w\<close> along z.
\<close>

definition cuboid :: "real \<Rightarrow> real \<Rightarrow> real \<Rightarrow> real \<Rightarrow> real \<Rightarrow> real \<Rightarrow> point set" where
  "cuboid x y z l h w =
     {(px, py, pz). x \<le> px \<and> px < x + l \<and> y \<le> py \<and> py < y + h \<and> z \<le> pz \<and> pz < z + w}"

definition occupiedRegion :: "PackedBox \<Rightarrow> point set" where
  "occupiedRegion b =
     cuboid (pos_x (position b)) (pos_y (position b)) (pos_z (position b))
            (d_length (dimensions b)) (d_height (dimensions b)) (d_width (dimensions b))"






definition disjointBoxes :: "PackedBox \<Rightarrow> PackedBox \<Rightarrow> bool" where
  "disjointBoxes a b \<longleftrightarrow> occupiedRegion a \<inter> occupiedRegion b = {}"









text \<open>
  Bookkeeping invariant after \<open>n\<close> units: placed boxes plus unpacked counts add up to
  \<open>n\<close>, and every key of the unpacked-count map is the id of an input box type.
\<close>

definition countInv :: "BoxType list \<Rightarrow> nat \<Rightarrow> PackState \<Rightarrow> bool" where
  "countInv bs n st \<longleftrightarrow>
     int (length (st_packedBoxes st)) + sum_list (map snd (st_unpackedCounts st)) = int n \<and>
     fst ` set (st_unpackedCounts st) \<subseteq> bt_id ` set bs"

text \<open>Every placed box carries an input box type and one of its orientation candidates.\<close>

definition orientInv :: "BoxType list \<Rightarrow> PackState \<Rightarrow> bool" where
  "orientInv bs st \<longleftrightarrow>
     (\<forall>b \<in> set (st_packedBoxes st).
        boxType b \<in> set bs \<and>
        (d_length (dimensions b), d_width (dimensions b), d_height (dimensions b))
          \<in> set (getRotations (boxType b)))"

section \<open>Example inputs\<close>

definition smallContainer :: Container where
  "smallContainer = \<lparr>c_length = 10, c_width = 10, c_height = 10\<rparr>"

definition crate :: BoxType where
  "crate = \<lparr>bt_id = ''crate'', bt_name = ''Crate'', bt_length = 6, bt_width = 5,
       bt_height = 4, bt_weight = 3, isFragile = False, bt_color = ''#4ECDC4'', quantity = 2\<rparr>"

definition vase :: BoxType where
  "vase = \<lparr>bt_id = ''vase'', bt_name = ''Vase'', bt_length = 5, bt_width = 4,
       bt_height = 6, bt_weight = 1, isFragile = True, bt_color = ''#FF6B6B'', quantity = 5\<rparr>"

definition smallBoxTypes :: "BoxType list" where
  "smallBoxTypes = [crate, vase]"




section \<open>Evaluation rules for the space scan\<close>

lemma placeInSpaces_step:
  "spaceIdx < length spaces \<Longrightarrow>
   placeInSpaces packed u spaces spaceIdx =
     (case tryRotations packed (u_boxType u) (spaces ! spaceIdx) (getRotations (u_boxType u)) of
        None \<Rightarrow> placeInSpaces packed u spaces (Suc spaceIdx)
      | Some rot \<Rightarrow>
          Some (makePackedBox (u_boxType u) (u_index u) (spaces ! spaceIdx) rot,
                updateSpaces spaces spaceIdx rot))"
  by (subst placeInSpaces.simps) simp

lemma placeInSpaces_end:
  "\<not> spaceIdx < length spaces \<Longrightarrow> placeInSpaces packed u spaces spaceIdx = None"
  by (subst placeInSpaces.simps) simp

lemmas pack_eval =
  packBoxes_def sortedUnits_def arraySort_def packLoop_def initialState_def placeUnit_def
  placeInSpaces_step placeInSpaces_end getRotations_def boxFitsInSpace_def
  checkFragilityConstraint_def makePackedBox_def updateSpaces_def splitSpace_def
  mathRound_def volumeDescending_def boxTypeVolume_def bottomLeftBack_def stackedOn_def
  getRotationFromDimensions_def Let_def

section \<open>Orientation candidates\<close>

text \<open>
  Claim C5.  For a box type with dimensions \<open>(l, w, h)\<close>, \<open>getRotations\<close> returns, in this
  order, the six assignments \<open>[l,w,h]\<close>, \<open>[l,h,w]\<close>, \<open>[w,l,h]\<close>, \<open>[w,h,l]\<close>, \<open>[h,l,w]\<close>,
  \<open>[h,w,l]\<close> when the type is not fragile, and exactly \<open>[l,w,h]\<close>, \<open>[w,l,h]\<close> (height
  kept on the vertical axis) when it is fragile.
\<close>

theorem getRotations_enumeration:
  "getRotations \<lparr>bt_id = i, bt_name = n, bt_length = l, bt_width = w, bt_height = h,
                 bt_weight = wt, isFragile = False, bt_color = col, quantity = q\<rparr>
     = [(l, w, h), (l, h, w), (w, l, h), (w, h, l), (h, l, w), (h, w, l)] \<and>
   getRotations \<lparr>bt_id = i, bt_name = n, bt_length = l, bt_width = w, bt_height = h,
                 bt_weight = wt, isFragile = True, bt_color = col, quantity = q\<rparr>
     = [(l, w, h), (w, l, h)]"
  by (simp add: getRotations_def)

section \<open>The guillotine split\<close>

text \<open>
  Claim C6.  Splitting a space \<open>S\<close> by a box with oriented extents \<open>(bl, bw, bh)\<close> yields
  exactly, in this order and each present iff its remaining extent is strictly positive:
  the space to the right with origin \<open>(S.x + bl, S.y, S.z)\<close> and extents
  \<open>(S.length - bl, S.width, S.height)\<close>; the space in front with origin
  \<open>(S.x, S.y, S.z + bw)\<close> and extents \<open>(bl, S.width - bw, S.height)\<close>; the space above
  with origin \<open>(S.x, S.y + bh, S.z)\<close> and extents \<open>(bl, bw, S.height - bh)\<close>; and nothing
  else.
\<close>

theorem splitSpace_residuals:
  "splitSpace S bl bw bh =
     (if sp_length S - bl > 0
      then [\<lparr>sp_x = sp_x S + bl, sp_y = sp_y S, sp_z = sp_z S,
             sp_length = sp_length S - bl, sp_width = sp_width S, sp_height = sp_height S\<rparr>]
      else []) @
     (if sp_width S - bw > 0
      then [\<lparr>sp_x = sp_x S, sp_y = sp_y S, sp_z = sp_z S + bw,
             sp_length = bl, sp_width = sp_width S - bw, sp_height = sp_height S\<rparr>]
      else []) @
     (if sp_height S - bh > 0
      then [\<lparr>sp_x = sp_x S, sp_y = sp_y S + bh, sp_z = sp_z S,
             sp_length = bl, sp_width = bw, sp_height = sp_height S - bh\<rparr>]
      else [])"
  by (simp add: splitSpace_def)

section \<open>Scenario A\<close>

text \<open>
  Claim C7.  For the container \<open>(100, 100, 100)\<close> and a single non-fragile box type with
  dimensions \<open>(50, 50, 50)\<close> and quantity 1 (any id, name, weight and colour),
  \<open>packBoxes\<close> places exactly one box, reports 1 packed and 0 unpacked boxes, an empty
  unpacked list, and a utilisation of 12.5 percent.
\<close>

theorem scenario_A:
  "let r = packBoxes \<lparr>c_length = 100, c_width = 100, c_height = 100\<rparr>
             [\<lparr>bt_id = i, bt_name = n, bt_length = 50, bt_width = 50, bt_height = 50,
               bt_weight = wt, isFragile = False, bt_color = col, quantity = 1\<rparr>]
   in length (boxes r) = 1 \<and> packedBoxes (stats r) = 1 \<and> unpackedBoxes (stats r) = 0 \<and>
      unpacked r = [] \<and> utilizationPercent (stats r) = 25 / 2"
  by (simp add: pack_eval)

section \<open>Geometry of cuboids\<close>






section \<open>Properties of the stable sort\<close>

lemma set_insertSorted [simp]: "set (insertSorted cmp a bs) = insert a (set bs)"
  by (induction bs) auto

lemma set_arraySort [simp]: "set (arraySort cmp xs) = set xs"
  by (induction xs) (simp_all add: arraySort_def)

lemma length_insertSorted [simp]: "length (insertSorted cmp a bs) = Suc (length bs)"
  by (induction bs) auto

lemma length_arraySort [simp]: "length (arraySort cmp xs) = length xs"
  by (induction xs) (simp_all add: arraySort_def)




lemma insertSorted_insort_key:
  assumes "\<And>a b. cmp a b \<le> 0 \<longleftrightarrow> f a \<le> f b"
  shows "insertSorted cmp a bs = insort_key f a bs"
  using assms by (induction bs) simp_all

lemma arraySort_sort_key:
  assumes "\<And>a b. cmp a b \<le> 0 \<longleftrightarrow> f a \<le> f b"
  shows "arraySort cmp xs = sort_key f xs"
  by (induction xs) (simp_all add: arraySort_def insertSorted_insort_key[of cmp f, OF assms])

lemma sortedUnits_sort_key:
  "sortedUnits bs = sort_key (\<lambda>u. - boxTypeVolume (u_boxType u)) (expandBoxTypes bs)"
  unfolding sortedUnits_def
  by (rule arraySort_sort_key) (simp add: volumeDescending_def)

lemma bottomLeftBack_sort_key:
  "arraySort bottomLeftBack xs = sort_key (\<lambda>s. (sp_y s, sp_x s, sp_z s)) xs"
  by (rule arraySort_sort_key) (auto simp: bottomLeftBack_def)

section \<open>Properties of the guillotine split\<close>








section \<open>The placement loop preserves the geometric invariant\<close>

lemma tryRotations_SomeD:
  assumes "tryRotations packed b s rots = Some (l, w, h)"
  shows "(l, w, h) \<in> set rots \<and> boxFitsInSpace l w h s \<and>
         checkFragilityConstraint packed b
           \<lparr>pos_x = sp_x s, pos_y = sp_y s, pos_z = sp_z s\<rparr>
           \<lparr>d_length = l, d_width = w, d_height = h\<rparr>"
  using assms
  by (induction packed b s rots rule: tryRotations.induct) (auto split: if_splits)

lemma placeInSpaces_SomeD:
  assumes "placeInSpaces packed u spaces i = Some (pb, sp')"
  shows "\<exists>j rot. j < length spaces \<and>
           tryRotations packed (u_boxType u) (spaces ! j) (getRotations (u_boxType u)) = Some rot \<and>
           pb = makePackedBox (u_boxType u) (u_index u) (spaces ! j) rot \<and>
           sp' = updateSpaces spaces j rot"
  using assms
proof (induction packed u spaces i rule: placeInSpaces.induct)
  case (1 packed u spaces spaceIdx)
  show ?case
  proof (cases "spaceIdx < length spaces")
    case False
    with "1.prems" show ?thesis by (simp add: placeInSpaces_end)
  next
    case True
    show ?thesis
    proof (cases "tryRotations packed (u_boxType u) (spaces ! spaceIdx) (getRotations (u_boxType u))")
      case None
      with True "1.prems" have "placeInSpaces packed u spaces (Suc spaceIdx) = Some (pb, sp')"
        by (simp add: placeInSpaces_step)
      with "1.IH"[OF True None] show ?thesis .
    next
      case (Some rot)
      with True "1.prems" have
        "pb = makePackedBox (u_boxType u) (u_index u) (spaces ! spaceIdx) rot \<and>
         sp' = updateSpaces spaces spaceIdx rot"
        by (simp add: placeInSpaces_step)
      with True Some show ?thesis by blast
    qed
  qed
qed



lemma disjointBoxes_sym: "disjointBoxes a b \<Longrightarrow> disjointBoxes b a"
  by (auto simp: disjointBoxes_def)











lemma set_expandBoxTypes: "u \<in> set (expandBoxTypes bs) \<Longrightarrow> u_boxType u \<in> set bs"
  by (induction bs) auto

lemma sortedUnits_boxType: "u \<in> set (sortedUnits bs) \<Longrightarrow> u_boxType u \<in> set bs"
  by (simp add: sortedUnits_def set_expandBoxTypes)


lemma boxes_packBoxes: "boxes (packBoxes c bs) = st_packedBoxes (packLoop c (sortedUnits bs))"
  by (simp add: packBoxes_def Let_def)

section \<open>The example run\<close>

lemma small_boxes:
  "boxes (packBoxes smallContainer smallBoxTypes) =
     [\<lparr>pb_id = ''crate_0'', boxType = crate,
       position = \<lparr>pos_x = 0, pos_y = 0, pos_z = 0\<rparr>,
       rotation = \<lparr>rot_x = Zero, rot_y = Zero, rot_z = Zero\<rparr>,
       dimensions = \<lparr>d_length = 6, d_width = 5, d_height = 4\<rparr>\<rparr>,
      \<lparr>pb_id = ''crate_1'', boxType = crate,
       position = \<lparr>pos_x = 0, pos_y = 0, pos_z = 5\<rparr>,
       rotation = \<lparr>rot_x = Zero, rot_y = Zero, rot_z = Zero\<rparr>,
       dimensions = \<lparr>d_length = 6, d_width = 5, d_height = 4\<rparr>\<rparr>,
      \<lparr>pb_id = ''vase_0'', boxType = vase,
       position = \<lparr>pos_x = 6, pos_y = 0, pos_z = 0\<rparr>,
       rotation = \<lparr>rot_x = Zero, rot_y = HalfPi, rot_z = Zero\<rparr>,
       dimensions = \<lparr>d_length = 4, d_width = 5, d_height = 6\<rparr>\<rparr>,
      \<lparr>pb_id = ''vase_1'', boxType = vase,
       position = \<lparr>pos_x = 6, pos_y = 0, pos_z = 5\<rparr>,
       rotation = \<lparr>rot_x = Zero, rot_y = HalfPi, rot_z = Zero\<rparr>,
       dimensions = \<lparr>d_length = 4, d_width = 5, d_height = 6\<rparr>\<rparr>,
      \<lparr>pb_id = ''vase_2'', boxType = vase,
       position = \<lparr>pos_x = 0, pos_y = 4, pos_z = 0\<rparr>,
       rotation = \<lparr>rot_x = Zero, rot_y = Zero, rot_z = Zero\<rparr>,
       dimensions = \<lparr>d_length = 5, d_width = 4, d_height = 6\<rparr>\<rparr>,
      \<lparr>pb_id = ''vase_3'', boxType = vase,
       position = \<lparr>pos_x = 0, pos_y = 4, pos_z = 5\<rparr>,
       rotation = \<lparr>rot_x = Zero, rot_y = Zero, rot_z = Zero\<rparr>,
       dimensions = \<lparr>d_length = 5, d_width = 4, d_height = 6\<rparr>\<rparr>]"
  by code_simp

lemma small_valid: "validInput smallContainer smallBoxTypes"
  by (simp add: validInput_def validContainer_def validBoxType_def smallContainer_def
      smallBoxTypes_def crate_def vase_def)

section \<open>Non-overlap, containment and the free-space invariant\<close>










section \<open>The fragility rule\<close>














section \<open>Accounting and orientations\<close>

lemma sum_counts_update:
  "sum_list (map snd (AList.update k ((case map_of al k of None \<Rightarrow> 0 | Some c \<Rightarrow> c) + 1) al))
     = sum_list (map snd al) + (1::int)"
  by (induction al) auto

lemma countInv_placeUnit:
  assumes "countInv bs n st" "u_boxType u \<in> set bs"
  shows "countInv bs (Suc n) (placeUnit st u)"
proof (cases "placeInSpaces (st_packedBoxes st) u (st_spaces st) 0")
  case None
  with assms show ?thesis
    by (auto simp: placeUnit_def countInv_def Let_def sum_counts_update dom_update)
next
  case (Some res)
  with assms show ?thesis
    by (cases res) (simp add: placeUnit_def countInv_def)
qed

lemma countInv_foldl:
  assumes "countInv bs n st" "\<forall>u \<in> set us. u_boxType u \<in> set bs"
  shows "countInv bs (n + length us) (foldl placeUnit st us)"
  using assms
proof (induction us arbitrary: n st)
  case Nil
  then show ?case by simp
next
  case (Cons u us)
  from Cons.prems have "countInv bs (Suc n) (placeUnit st u)"
    by (simp add: countInv_placeUnit)
  from Cons.IH[OF this] Cons.prems(2) show ?case by simp
qed

lemma countInv_packLoop:
  "countInv bs (length (sortedUnits bs)) (packLoop c (sortedUnits bs))"
proof -
  have "countInv bs 0 (initialState c)"
    by (simp add: countInv_def initialState_def)
  from countInv_foldl[OF this, of "sortedUnits bs"] show ?thesis
    by (simp add: packLoop_def sortedUnits_boxType)
qed

lemma sum_buildUnpacked:
  assumes "fst ` set counts \<subseteq> bt_id ` set bs"
  shows "sum_list (map quantity (buildUnpacked bs counts)) = sum_list (map snd counts)"
  using assms
proof (induction counts)
  case Nil
  then show ?case by simp
next
  case (Cons p counts)
  obtain ident n where p: "p = (ident, n)" by (cases p)
  from Cons.prems p have "\<exists>b \<in> set bs. bt_id b = ident" by auto
  then obtain b where "find (\<lambda>b. bt_id b = ident) bs = Some b"
    by (cases "find (\<lambda>b. bt_id b = ident) bs") (auto simp: find_None_iff)
  with Cons p show ?case by simp
qed

lemma length_expandBoxTypes:
  "int (length (expandBoxTypes bs)) = sum_list (map (\<lambda>b. max 0 (quantity b)) bs)"
  by (induction bs) simp_all

lemma length_sortedUnits:
  assumes "list_all validBoxType bs"
  shows "int (length (sortedUnits bs)) = sum_list (map quantity bs)"
proof -
  have "sum_list (map (\<lambda>b. max 0 (quantity b)) bs) = sum_list (map quantity bs)"
    using assms by (induction bs) (simp_all add: validBoxType_def)
  then show ?thesis
    by (simp add: sortedUnits_def length_expandBoxTypes)
qed

text \<open>
  Claim C2.  For every valid input the statistics satisfy
  \<open>packedBoxes + unpackedBoxes = totalBoxes\<close>, where \<open>totalBoxes\<close> is the sum of the
  requested quantities, \<open>packedBoxes\<close> is the length of the placed-box list, and the
  quantities of the unpacked list sum to \<open>unpackedBoxes\<close>.
\<close>

theorem every_unit_accounted_for:
  assumes "validInput c bs"
  shows "packedBoxes (stats (packBoxes c bs)) + unpackedBoxes (stats (packBoxes c bs))
           = totalBoxes (stats (packBoxes c bs)) \<and>
         totalBoxes (stats (packBoxes c bs)) = sum_list (map quantity bs) \<and>
         packedBoxes (stats (packBoxes c bs)) = int (length (boxes (packBoxes c bs))) \<and>
         sum_list (map quantity (unpacked (packBoxes c bs)))
           = unpackedBoxes (stats (packBoxes c bs))"
proof -
  let ?final = "packLoop c (sortedUnits bs)"
  have inv: "countInv bs (length (sortedUnits bs)) ?final"
    by (rule countInv_packLoop)
  then have "sum_list (map quantity (buildUnpacked bs (st_unpackedCounts ?final)))
      = sum_list (map snd (st_unpackedCounts ?final))"
    by (intro sum_buildUnpacked) (simp add: countInv_def)
  moreover from inv have
    "int (length (st_packedBoxes ?final)) + sum_list (map snd (st_unpackedCounts ?final))
       = int (length (sortedUnits bs))"
    by (simp add: countInv_def)
  moreover have "int (length (sortedUnits bs)) = sum_list (map quantity bs)"
    using assms by (simp add: validInput_def length_sortedUnits)
  ultimately show ?thesis
    by (simp add: packBoxes_def Let_def)
qed

theorem every_unit_accounted_for_witness:
  "validInput smallContainer smallBoxTypes \<and>
   packedBoxes (stats (packBoxes smallContainer smallBoxTypes))
     + unpackedBoxes (stats (packBoxes smallContainer smallBoxTypes))
     = totalBoxes (stats (packBoxes smallContainer smallBoxTypes)) \<and>
   totalBoxes (stats (packBoxes smallContainer smallBoxTypes)) = 7 \<and>
   packedBoxes (stats (packBoxes smallContainer smallBoxTypes)) = 6 \<and>
   sum_list (map quantity (unpacked (packBoxes smallContainer smallBoxTypes)))
     = unpackedBoxes (stats (packBoxes smallContainer smallBoxTypes))"
  using small_valid every_unit_accounted_for[OF small_valid]
  by (simp add: small_boxes) (simp add: smallBoxTypes_def crate_def vase_def)

lemma orientInv_placeUnit:
  assumes "orientInv bs st" "u_boxType u \<in> set bs"
  shows "orientInv bs (placeUnit st u)"
proof (cases "placeInSpaces (st_packedBoxes st) u (st_spaces st) 0")
  case None
  with assms show ?thesis by (simp add: placeUnit_def orientInv_def Let_def)
next
  case (Some res)
  obtain pb sp' where res: "res = (pb, sp')" by (cases res)
  from placeInSpaces_SomeD[OF Some[unfolded res]]
  obtain j rot where
    tr: "tryRotations (st_packedBoxes st) (u_boxType u) (st_spaces st ! j)
               (getRotations (u_boxType u)) = Some rot"
    and pb: "pb = makePackedBox (u_boxType u) (u_index u) (st_spaces st ! j) rot"
    by blast
  obtain l w h where rot: "rot = (l, w, h)" by (cases rot)
  from tryRotations_SomeD[OF tr[unfolded rot]]
  have mem: "(l, w, h) \<in> set (getRotations (u_boxType u))" by simp
  have "placeUnit st u = st\<lparr>st_spaces := sp', st_packedBoxes := st_packedBoxes st @ [pb]\<rparr>"
    using Some res by (simp add: placeUnit_def)
  with assms mem show ?thesis
    by (simp add: orientInv_def pb rot makePackedBox_def)
qed

lemma orientInv_foldl:
  assumes "orientInv bs st" "\<forall>u \<in> set us. u_boxType u \<in> set bs"
  shows "orientInv bs (foldl placeUnit st us)"
  using assms by (induction us arbitrary: st) (simp_all add: orientInv_placeUnit)

lemma orientInv_packLoop: "orientInv bs (packLoop c (sortedUnits bs))"
  unfolding packLoop_def
  by (rule orientInv_foldl) (simp_all add: orientInv_def initialState_def sortedUnits_boxType)

text \<open>
  Claim C10.  Every placed box in the output of \<open>packBoxes\<close> carries one of the input box
  types, its effective (length, width, height) is a permutation of that type's
  (length, width, height), so its effective volume is the volume of the unrotated type,
  and for a fragile type the effective height is the type's height.
\<close>

theorem placed_dimensions_permute_spec:
  assumes "b \<in> set (boxes (packBoxes c bs))"
  shows "boxType b \<in> set bs \<and>
         (d_length (dimensions b), d_width (dimensions b), d_height (dimensions b))
           \<in> {(bt_length (boxType b), bt_width (boxType b), bt_height (boxType b)),
               (bt_length (boxType b), bt_height (boxType b), bt_width (boxType b)),
               (bt_width (boxType b), bt_length (boxType b), bt_height (boxType b)),
               (bt_width (boxType b), bt_height (boxType b), bt_length (boxType b)),
               (bt_height (boxType b), bt_length (boxType b), bt_width (boxType b)),
               (bt_height (boxType b), bt_width (boxType b), bt_length (boxType b))} \<and>
         d_length (dimensions b) * d_width (dimensions b) * d_height (dimensions b)
           = boxTypeVolume (boxType b) \<and>
         (isFragile (boxType b) \<longrightarrow> d_height (dimensions b) = bt_height (boxType b))"
proof -
  from assms orientInv_packLoop[of bs c]
  have "boxType b \<in> set bs"
    and "(d_length (dimensions b), d_width (dimensions b), d_height (dimensions b))
          \<in> set (getRotations (boxType b))"
    by (simp_all add: orientInv_def boxes_packBoxes)
  then show ?thesis
    by (auto simp: getRotations_def Let_def boxTypeVolume_def split: if_splits)
qed

theorem placed_dimensions_permute_spec_witness:
  "boxes (packBoxes smallContainer smallBoxTypes) ! 2
     \<in> set (boxes (packBoxes smallContainer smallBoxTypes)) \<and>
   boxType (boxes (packBoxes smallContainer smallBoxTypes) ! 2) \<in> set smallBoxTypes \<and>
   dimensions (boxes (packBoxes smallContainer smallBoxTypes) ! 2)
     = \<lparr>d_length = bt_width vase, d_width = bt_length vase, d_height = bt_height vase\<rparr> \<and>
   d_length (dimensions (boxes (packBoxes smallContainer smallBoxTypes) ! 2))
     * d_width (dimensions (boxes (packBoxes smallContainer smallBoxTypes) ! 2))
     * d_height (dimensions (boxes (packBoxes smallContainer smallBoxTypes) ! 2))
     = boxTypeVolume (boxType (boxes (packBoxes smallContainer smallBoxTypes) ! 2)) \<and>
   isFragile (boxType (boxes (packBoxes smallContainer smallBoxTypes) ! 2)) \<and>
   d_height (dimensions (boxes (packBoxes smallContainer smallBoxTypes) ! 2))
     = bt_height (boxType (boxes (packBoxes smallContainer smallBoxTypes) ! 2))"
proof -
  have mem: "boxes (packBoxes smallContainer smallBoxTypes) ! 2 \<in>
     set (boxes (packBoxes smallContainer smallBoxTypes))"
    by (rule nth_mem) (simp add: small_boxes)
  have fr: "isFragile (boxType (boxes (packBoxes smallContainer smallBoxTypes) ! 2))"
    by (simp add: small_boxes vase_def)
  have dims: "dimensions (boxes (packBoxes smallContainer smallBoxTypes) ! 2)
     = \<lparr>d_length = bt_width vase, d_width = bt_length vase, d_height = bt_height vase\<rparr>"
    by (simp add: small_boxes vase_def)
  show ?thesis
    using mem fr dims placed_dimensions_permute_spec[OF mem] by blast
qed

section \<open>Determinism\<close>



end
